theory Spec2Isabelle
  imports Main
begin

section \<open>Pascal VOC dataset parser (effdet/data/parsers/parser_voc.py)\<close>

text \<open>
  A shallow embedding of class \<open>VocParser\<close>. Exceptions are values of type
  \<open>error\<close> on the left of a sum, the parser object is a record passed through
  the loading loop, and the files and library calls the constructor reads are
  gathered in a record \<open>world\<close>.
\<close>

subsection \<open>Errors\<close>

datatype error =
    OSError
  | ParseError
  | AttributeError
  | TypeError
  | ValueError
  | KeyError "string option"
  | AssertionError
  | IndexError
  | OverflowError

fun map_err :: "('a \<Rightarrow> error + 'b) \<Rightarrow> 'a list \<Rightarrow> error + 'b list" where
  "map_err f [] = Inr []"
| "map_err f (x # xs) =
     (case f x of
        Inl e \<Rightarrow> Inl e
      | Inr y \<Rightarrow> (case map_err f xs of Inl e \<Rightarrow> Inl e | Inr ys \<Rightarrow> Inr (y # ys)))"

subsection \<open>The element tree\<close>

text \<open>
  What \<open>xml.etree.ElementTree\<close> hands to the parser: an element has a tag, a
  text (\<open>None\<close> when it has none) and children. \<open>find\<close> with a plain tag
  returns the first direct child of that tag, \<open>findall\<close> all of them in order.
\<close>

datatype xml = Element (elem_tag: string) (elem_text: "string option") (elem_children: "xml list")

definition xml_find :: "string \<Rightarrow> xml \<Rightarrow> xml option" where
  "xml_find t e = List.find (\<lambda>c. elem_tag c = t) (elem_children e)"

definition xml_findall :: "string \<Rightarrow> xml \<Rightarrow> xml list" where
  "xml_findall t e = filter (\<lambda>c. elem_tag c = t) (elem_children e)"

subsection \<open>The outside world\<close>

text \<open>
  \<open>readlines path\<close> is \<open>open(path).readlines()\<close>, \<open>et_parse path\<close> is
  \<open>ET.parse(path).getroot()\<close>, \<open>str_mod t s\<close> is the string formatting
  \<open>t % s\<close> and \<open>int_of_str s\<close> is \<open>int(s)\<close> on a string. Each may raise.
\<close>

record world =
  readlines :: "string \<Rightarrow> error + string list"
  et_parse :: "string \<Rightarrow> error + xml"
  str_mod :: "string \<Rightarrow> string \<Rightarrow> error + string"
  int_of_str :: "string \<Rightarrow> error + int"

text \<open>
  \<open>X.find(t).text\<close>: an \<open>AttributeError\<close> when \<open>X\<close> is \<open>None\<close> or has no
  such child. \<open>int(X.find(t).text)\<close>: a \<open>TypeError\<close> when the text is \<open>None\<close>.
\<close>

definition find_text :: "string \<Rightarrow> xml option \<Rightarrow> error + string option" where
  "find_text t X =
     (case X of
        None \<Rightarrow> Inl AttributeError
      | Some e \<Rightarrow> (case xml_find t e of None \<Rightarrow> Inl AttributeError | Some c \<Rightarrow> Inr (elem_text c)))"

definition find_int :: "world \<Rightarrow> string \<Rightarrow> xml option \<Rightarrow> error + int" where
  "find_int w t X =
     (case find_text t X of
        Inl e \<Rightarrow> Inl e
      | Inr None \<Rightarrow> Inl TypeError
      | Inr (Some s) \<Rightarrow> int_of_str w s)"

subsection \<open>Configuration and parser state\<close>

text \<open>
  \<open>VocParserCfg\<close> is declared in \<open>parser_config\<close>; the record holds the
  attributes the parser reads from it.
\<close>

record cfg =
  cfg_split_filename :: string
  cfg_img_filename :: string
  cfg_ann_filename :: string
  cfg_bbox_yxyx :: bool
  cfg_has_labels :: bool
  cfg_keep_difficult :: bool
  cfg_ignore_empty_gt :: bool
  cfg_min_img_size :: int
  cfg_classes :: "string list option"

record raw_ann =
  ann_label :: int
  ann_bbox :: "int \<times> int \<times> int \<times> int"
  ann_difficult :: int

record img_info =
  info_id :: string
  file_name :: string
  width :: int
  height :: int

record parser =
  yxyx :: bool
  has_labels :: bool
  keep_difficult :: bool
  include_bboxes_ignore :: bool
  ignore_empty_gt :: bool
  min_img_size :: int
  correct_bbox :: int
  cat_ids :: "int list"
  cat_to_label :: "string \<rightharpoonup> int"
  img_ids :: "string list"
  img_ids_invalid :: "string list"
  img_infos :: "img_info list"
  img_id_to_idx :: "string \<rightharpoonup> nat"
  anns :: "raw_ann list list"

definition DEFAULT_CLASSES :: "string list" where
  "DEFAULT_CLASSES =
     [''aeroplane'', ''bicycle'', ''bird'', ''boat'', ''bottle'', ''bus'', ''car'', ''cat'',
      ''chair'', ''cow'', ''diningtable'', ''dog'', ''horse'', ''motorbike'', ''person'',
      ''pottedplant'', ''sheep'', ''sofa'', ''train'', ''tvmonitor'']"

text \<open>\<open>cfg.classes or self.DEFAULT_CLASSES\<close>: \<open>None\<close> and the empty list are falsy.\<close>

definition classes_of :: "cfg \<Rightarrow> string list" where
  "classes_of c =
     (case cfg_classes c of
        None \<Rightarrow> DEFAULT_CLASSES
      | Some cs \<Rightarrow> (if cs = [] then DEFAULT_CLASSES else cs))"

text \<open>\<open>{cat: i + 1 for i, cat in enumerate(classes)}\<close>: a later duplicate overwrites.\<close>

definition build_cat_to_label :: "string list \<Rightarrow> string \<rightharpoonup> int" where
  "build_cat_to_label classes =
     fold (\<lambda>(i, cat) m. m(cat \<mapsto> int i + 1)) (enumerate 0 classes) Map.empty"

text \<open>The fields set by \<open>__init__\<close> before it calls \<open>_load_annotations\<close>.\<close>

definition new_parser :: "cfg \<Rightarrow> parser" where
  "new_parser c =
     \<lparr> yxyx = cfg_bbox_yxyx c,
       has_labels = cfg_has_labels c,
       keep_difficult = cfg_keep_difficult c,
       include_bboxes_ignore = False,
       ignore_empty_gt = (cfg_has_labels c \<and> cfg_ignore_empty_gt c),
       min_img_size = cfg_min_img_size c,
       correct_bbox = 1,
       cat_ids = [],
       cat_to_label = build_cat_to_label (classes_of c),
       img_ids = [],
       img_ids_invalid = [],
       img_infos = [],
       img_id_to_idx = Map.empty,
       anns = [] \<rparr>"

subsection \<open>Loading\<close>

text \<open>\<open>img_id.strip("\n")\<close> removes the newlines at both ends.\<close>

definition strip_nl :: "string \<Rightarrow> string" where
  "strip_nl s = rev (dropWhile (\<lambda>c. c = CHR 0x0A) (rev (dropWhile (\<lambda>c. c = CHR 0x0A) s)))"

text \<open>Lines 48 to 54: the two templated names, the parsed tree and the image size.\<close>

definition read_image :: "world \<Rightarrow> cfg \<Rightarrow> string \<Rightarrow> error + (string \<times> xml \<times> int \<times> int)" where
  "read_image w c img_id =
     (case str_mod w (cfg_img_filename c) img_id of
        Inl e \<Rightarrow> Inl e
      | Inr filename \<Rightarrow>
     (case str_mod w (cfg_ann_filename c) img_id of
        Inl e \<Rightarrow> Inl e
      | Inr xml_path \<Rightarrow>
     (case et_parse w xml_path of
        Inl e \<Rightarrow> Inl e
      | Inr root \<Rightarrow>
     (case find_int w ''width'' (xml_find ''size'' root) of
        Inl e \<Rightarrow> Inl e
      | Inr wd \<Rightarrow>
     (case find_int w ''height'' (xml_find ''size'' root) of
        Inl e \<Rightarrow> Inl e
      | Inr ht \<Rightarrow> Inr (filename, root, wd, ht))))))"

text \<open>Lines 60 to 70: one \<open>object\<close> element becomes one raw annotation.\<close>

definition lookup_label :: "parser \<Rightarrow> string option \<Rightarrow> error + int" where
  "lookup_label p name =
     (case name of
        None \<Rightarrow> Inl (KeyError None)
      | Some nm \<Rightarrow> (case cat_to_label p nm of None \<Rightarrow> Inl (KeyError (Some nm)) | Some l \<Rightarrow> Inr l))"

definition parse_object :: "world \<Rightarrow> parser \<Rightarrow> xml \<Rightarrow> error + raw_ann" where
  "parse_object w p obj =
     (case find_text ''name'' (Some obj) of
        Inl e \<Rightarrow> Inl e
      | Inr name \<Rightarrow>
     (case lookup_label p name of
        Inl e \<Rightarrow> Inl e
      | Inr l \<Rightarrow>
     (case find_int w ''difficult'' (Some obj) of
        Inl e \<Rightarrow> Inl e
      | Inr d \<Rightarrow>
     (let bnd_box = xml_find ''bndbox'' obj in
     (case find_int w ''xmin'' bnd_box of
        Inl e \<Rightarrow> Inl e
      | Inr x1 \<Rightarrow>
     (case find_int w ''ymin'' bnd_box of
        Inl e \<Rightarrow> Inl e
      | Inr y1 \<Rightarrow>
     (case find_int w ''xmax'' bnd_box of
        Inl e \<Rightarrow> Inl e
      | Inr x2 \<Rightarrow>
     (case find_int w ''ymax'' bnd_box of
        Inl e \<Rightarrow> Inl e
      | Inr y2 \<Rightarrow>
          Inr \<lparr> ann_label = l, ann_bbox = (x1, y1, x2, y2), ann_difficult = d \<rparr>))))))))"

text \<open>The inner loop of line 59, appending to the local list \<open>anns\<close>.\<close>

fun parse_objects :: "world \<Rightarrow> parser \<Rightarrow> xml list \<Rightarrow> raw_ann list \<Rightarrow> error + raw_ann list" where
  "parse_objects w p [] acc = Inr acc"
| "parse_objects w p (obj # objs) acc =
     (case parse_object w p obj of
        Inl e \<Rightarrow> Inl e
      | Inr a \<Rightarrow> parse_objects w p objs (acc @ [a]))"

text \<open>
  The body of the loop of line 46 for one entry \<open>(img_idx, img_id)\<close> of
  \<open>enumerate(ids)\<close>; \<open>continue\<close> returns the parser as it is.
\<close>

definition load_one :: "world \<Rightarrow> cfg \<Rightarrow> parser \<Rightarrow> nat \<times> string \<Rightarrow> error + parser" where
  "load_one w c p entry =
     (let img_idx = fst entry; img_id = strip_nl (snd entry) in
      case read_image w c img_id of
        Inl e \<Rightarrow> Inl e
      | Inr (filename, root, wd, ht) \<Rightarrow>
          if min wd ht < min_img_size p then Inr p
          else
            (case parse_objects w p (xml_findall ''object'' root) [] of
               Inl e \<Rightarrow> Inl e
             | Inr new_anns \<Rightarrow>
                 if \<not> ignore_empty_gt p \<or> new_anns \<noteq> [] then
                   Inr (p\<lparr> anns := anns p @ [new_anns],
                           img_infos := img_infos p @
                             [\<lparr> info_id = img_id, file_name = filename, width = wd, height = ht \<rparr>],
                           img_ids := img_ids p @ [img_id],
                           img_id_to_idx := (img_id_to_idx p)(img_id \<mapsto> img_idx) \<rparr>)
                 else Inr (p\<lparr> img_ids_invalid := img_ids_invalid p @ [img_id] \<rparr>)))"

fun load_loop :: "world \<Rightarrow> cfg \<Rightarrow> parser \<Rightarrow> (nat \<times> string) list \<Rightarrow> error + parser" where
  "load_loop w c p [] = Inr p"
| "load_loop w c p (entry # rest) =
     (case load_one w c p entry of
        Inl e \<Rightarrow> Inl e
      | Inr p' \<Rightarrow> load_loop w c p' rest)"

definition load_annotations :: "world \<Rightarrow> cfg \<Rightarrow> parser \<Rightarrow> error + parser" where
  "load_annotations w c p =
     (case readlines w (cfg_split_filename c) of
        Inl e \<Rightarrow> Inl e
      | Inr ids \<Rightarrow> load_loop w c (p\<lparr> anns := [] \<rparr>) (enumerate 0 ids))"

text \<open>The constructor: an exception leaves no parser behind.\<close>

definition init :: "world \<Rightarrow> cfg \<Rightarrow> error + parser" where
  "init w c = load_annotations w c (new_parser c)"

subsection \<open>Merging\<close>

text \<open>
  \<open>merge\<close> on the two objects: the assertion of line 82 comes before every
  mutation. The loop of lines 86 and 87 overwrites the entry of each key of
  \<open>other.img_id_to_idx\<close> and leaves the other keys of \<open>self\<close> alone.
\<close>

definition merge :: "parser \<Rightarrow> parser \<Rightarrow> error + parser" where
  "merge self other =
     (let this_size = length (img_ids self) in
      if length (cat_ids self) \<noteq> length (cat_ids other) then Inl AssertionError
      else
        Inr (self\<lparr> img_ids := img_ids self @ img_ids other,
                   img_infos := img_infos self @ img_infos other,
                   anns := anns self @ anns other,
                   img_id_to_idx :=
                     (\<lambda>k. case img_id_to_idx other k of
                            None \<Rightarrow> img_id_to_idx self k
                          | Some idx \<Rightarrow> Some (idx + this_size)) \<rparr>))"

text \<open>
  Parsers are objects: a heap maps references to them, \<open>a.merge(b)\<close> updates
  the object at \<open>a\<close> in place, and \<open>a\<close> and \<open>b\<close> may be the same reference.
  The result is the exception raised, if any, and the heap afterwards.
\<close>

type_synonym heap = "nat \<Rightarrow> parser"

definition merge_ref :: "heap \<Rightarrow> nat \<Rightarrow> nat \<Rightarrow> error option \<times> heap" where
  "merge_ref h a b =
     (case merge (h a) (h b) of
        Inl e \<Rightarrow> (Some e, h)
      | Inr self' \<Rightarrow> (None, h(a := self')))"

subsection \<open>float32 values of integers\<close>

text \<open>
  The arrays hold float32 values. Every value that arises is the conversion of
  a Python integer or such a value minus one, so it is an integer or an
  infinity. \<open>rne p n\<close> rounds the integer \<open>n\<close> to the nearest integer with a
  significand of \<open>p\<close> bits, ties to even.
\<close>

datatype f32 = Fin int | PInf | NInf

function bitlen :: "int \<Rightarrow> nat" where
  "bitlen n = (if n \<le> 0 then 0 else Suc (bitlen (n div 2)))"
  by pat_completeness auto
termination
  by (relation "measure nat") auto

declare bitlen.simps [simp del]

definition rne :: "nat \<Rightarrow> int \<Rightarrow> int" where
  "rne p n =
     (let a = \<bar>n\<bar>; e = bitlen a - p in
      if e = 0 then n
      else
        let q = a div 2 ^ e; r = a mod 2 ^ e; h = 2 ^ (e - 1);
            q' = (if h < r \<or> (r = h \<and> odd q) then q + 1 else q)
        in sgn n * (q' * 2 ^ e))"

text \<open>
  Storing a Python integer in a float32 array converts it to a double first
  (\<open>OverflowError\<close> when it rounds to \<open>2 ^ 1024\<close> or beyond) and casts the
  double to float32 (an infinity when it rounds to \<open>2 ^ 128\<close> or beyond).
\<close>

definition f32_round :: "int \<Rightarrow> f32" where
  "f32_round x =
     (let f = rne 24 x in
      if 2 ^ 128 \<le> f then PInf else if f \<le> - (2 ^ 128) then NInf else Fin f)"

definition f32_of_int :: "int \<Rightarrow> error + f32" where
  "f32_of_int n =
     (let d = rne 53 n in
      if 2 ^ 1024 \<le> \<bar>d\<bar> then Inl OverflowError else Inr (f32_round d))"

text \<open>\<open>x - 1\<close> in float32: the exact difference, rounded.\<close>

fun f32_sub1 :: "f32 \<Rightarrow> f32" where
  "f32_sub1 (Fin a) = f32_round (a - 1)"
| "f32_sub1 PInf = PInf"
| "f32_sub1 NInf = NInf"

text \<open>
  \<open>astype(np.int64)\<close> of one value; what is out of range or infinite becomes
  the least int64, as the conversion instruction of x86-64 gives.
\<close>

fun int64_of_f32 :: "f32 \<Rightarrow> int" where
  "int64_of_f32 (Fin a) = (if - (2 ^ 63) \<le> a \<and> a < 2 ^ 63 then a else - (2 ^ 63))"
| "int64_of_f32 PInf = - (2 ^ 63)"
| "int64_of_f32 NInf = - (2 ^ 63)"

subsection \<open>Arrays\<close>

text \<open>A two-dimensional float32 array: its shape and its rows.\<close>

record ndarray =
  shape :: "nat \<times> nat"
  rows :: "f32 list list"

definition np_zeros :: "nat \<Rightarrow> nat \<Rightarrow> ndarray" where
  "np_zeros r c = \<lparr> shape = (r, c), rows = replicate r (replicate c (Fin 0)) \<rparr>"

text \<open>
  \<open>np.array(xs, ndmin=2, dtype=np.float32)\<close> of a list of lists: one row per
  list; lists of different lengths are a \<open>ValueError\<close>.
\<close>

fun np_array2 :: "int list list \<Rightarrow> error + ndarray" where
  "np_array2 [] = Inr \<lparr> shape = (1, 0), rows = [[]] \<rparr>"
| "np_array2 (x # xs) =
     (if list_all (\<lambda>y. length y = length x) xs then
        (case map_err (map_err f32_of_int) (x # xs) of
           Inl e \<Rightarrow> Inl e
         | Inr rs \<Rightarrow> Inr \<lparr> shape = (Suc (length xs), length x), rows = rs \<rparr>)
      else Inl ValueError)"

definition np_array1 :: "int list \<Rightarrow> error + f32 list" where
  "np_array1 xs = map_err f32_of_int xs"

definition np_sub1 :: "ndarray \<Rightarrow> ndarray" where
  "np_sub1 a = a\<lparr> rows := map (map f32_sub1) (rows a) \<rparr>"

definition astype_int64 :: "f32 list \<Rightarrow> int list" where
  "astype_int64 xs = map int64_of_f32 xs"

subsection \<open>Normalising the annotations of one image\<close>

text \<open>
  The loop of lines 97 to 114 over \<open>ann_info\<close>, with the four lists as
  accumulator \<open>(bboxes, labels, bboxes_ignore, labels_ignore)\<close>.
\<close>

fun partition_anns ::
  "parser \<Rightarrow> raw_ann list \<Rightarrow> int list list \<times> int list \<times> int list list \<times> int list
     \<Rightarrow> int list list \<times> int list \<times> int list list \<times> int list" where
  "partition_anns p [] acc = acc"
| "partition_anns p (ann # rest) (bboxes, labels, bboxes_ignore, labels_ignore) =
     (case ann_bbox ann of
        (x1, y1, x2, y2) \<Rightarrow>
          let label = ann_label ann;
              w = x2 - x1;
              h = y2 - y1;
              ignore = (w < 1 \<or> h < 1);
              bbox = (if yxyx p then [y1, x1, y2, x2] else [x1, y1, x2, y2])
          in if ignore \<or> (ann_difficult ann \<noteq> 0 \<and> \<not> keep_difficult p)
             then partition_anns p rest (bboxes, labels, bboxes_ignore @ [bbox], labels_ignore @ [label])
             else partition_anns p rest (bboxes @ [bbox], labels @ [label], bboxes_ignore, labels_ignore))"

text \<open>
  Lines 116 to 121, and again lines 124 to 129 for the ignore group: an empty
  list gives the arrays of zeros of shapes \<open>(0, 4)\<close> and \<open>(0,)\<close>, any other
  the float32 array of the boxes minus one and the float32 array of the labels.
\<close>

definition to_arrays :: "int list list \<Rightarrow> int list \<Rightarrow> error + ndarray \<times> f32 list" where
  "to_arrays bboxes labels =
     (if bboxes = [] then Inr (np_zeros 0 4, [])
      else
        (case np_array2 bboxes of
           Inl e \<Rightarrow> Inl e
         | Inr b \<Rightarrow>
        (case np_array1 labels of
           Inl e \<Rightarrow> Inl e
         | Inr l \<Rightarrow> Inr (np_sub1 b, l))))"

text \<open>The returned dict: the two ignore keys are present or absent together.\<close>

record ann_dict =
  bbox :: ndarray
  cls :: "int list"
  bbox_ignore :: "ndarray option"
  cls_ignore :: "int list option"

definition parse_ann_info :: "parser \<Rightarrow> raw_ann list \<Rightarrow> error + ann_dict" where
  "parse_ann_info p ann_info =
     (case partition_anns p ann_info ([], [], [], []) of
        (bboxes, labels, bboxes_ignore, labels_ignore) \<Rightarrow>
          (case to_arrays bboxes labels of
             Inl e \<Rightarrow> Inl e
           | Inr (b, l) \<Rightarrow>
               if include_bboxes_ignore p then
                 (case to_arrays bboxes_ignore labels_ignore of
                    Inl e \<Rightarrow> Inl e
                  | Inr (bi, li) \<Rightarrow>
                      Inr \<lparr> bbox = b, cls = astype_int64 l,
                            bbox_ignore = Some bi, cls_ignore = Some (astype_int64 li) \<rparr>)
               else
                 Inr \<lparr> bbox = b, cls = astype_int64 l,
                       bbox_ignore = None, cls_ignore = None \<rparr>))"

text \<open>
  The position a list of length \<open>n\<close> reads at index \<open>idx\<close>: a negative index
  counts from the end, and an index out of range is an \<open>IndexError\<close>.
\<close>

definition py_index :: "nat \<Rightarrow> int \<Rightarrow> error + nat" where
  "py_index n idx =
     (let j = (if idx < 0 then int n + idx else idx) in
      if 0 \<le> j \<and> j < int n then Inr (nat j) else Inl IndexError)"

text \<open>\<open>self._parse_ann_info(self.anns[idx])\<close>.\<close>

definition get_ann_info :: "parser \<Rightarrow> int \<Rightarrow> error + ann_dict" where
  "get_ann_info p idx =
     (case py_index (length (anns p)) idx of
        Inl e \<Rightarrow> Inl e
      | Inr j \<Rightarrow> parse_ann_info p (anns p ! j))"

subsection \<open>Constructed and merged parsers\<close>

text \<open>The parsers a program can hold: built by the constructor, then merged.\<close>

inductive built :: "world \<Rightarrow> parser \<Rightarrow> bool" for w :: world where
  built_init: "init w c = Inr p \<Longrightarrow> built w p"
| built_merge: "built w a \<Longrightarrow> built w b \<Longrightarrow> merge a b = Inr a' \<Longrightarrow> built w a'"

subsection \<open>Invariants of loading\<close>

text \<open>The fields that hold the configuration.\<close>

definition same_config :: "parser \<Rightarrow> parser \<Rightarrow> bool" where
  "same_config p p' =
     (yxyx p' = yxyx p \<and> has_labels p' = has_labels p \<and> keep_difficult p' = keep_difficult p \<and>
      include_bboxes_ignore p' = include_bboxes_ignore p \<and>
      ignore_empty_gt p' = ignore_empty_gt p \<and> min_img_size p' = min_img_size p \<and>
      correct_bbox p' = correct_bbox p \<and> cat_ids p' = cat_ids p \<and>
      cat_to_label p' = cat_to_label p)"

text \<open>The three sequences of the index have one length.\<close>

definition aligned :: "parser \<Rightarrow> bool" where
  "aligned p =
     (length (img_ids p) = length (img_infos p) \<and> length (img_infos p) = length (anns p))"

text \<open>
  Every identifier kept or rejected names an image that passed the size check,
  and every stored image info has that size.
\<close>

definition size_ok :: "world \<Rightarrow> cfg \<Rightarrow> parser \<Rightarrow> bool" where
  "size_ok w c p =
     ((\<forall>i \<in> set (img_ids p) \<union> set (img_ids_invalid p).
         \<exists>fn root wd ht. read_image w c i = Inr (fn, root, wd, ht) \<and> min_img_size p \<le> min wd ht) \<and>
      (\<forall>info \<in> set (img_infos p). min_img_size p \<le> min (width info) (height info)))"

subsection \<open>The two groups of the normalisation\<close>

text \<open>
  The test of line 109 for one annotation, with the degeneracy test of line 103
  written out, and the box as lines 105 to 108 order it.
\<close>

definition usable :: "parser \<Rightarrow> raw_ann \<Rightarrow> bool" where
  "usable p a =
     (case ann_bbox a of
        (x1, y1, x2, y2) \<Rightarrow>
          \<not> (x2 - x1 < 1 \<or> y2 - y1 < 1 \<or> (ann_difficult a \<noteq> 0 \<and> \<not> keep_difficult p)))"

definition box_of :: "parser \<Rightarrow> raw_ann \<Rightarrow> int list" where
  "box_of p a =
     (case ann_bbox a of
        (x1, y1, x2, y2) \<Rightarrow> if yxyx p then [y1, x1, y2, x2] else [x1, y1, x2, y2])"

subsection \<open>A small dataset\<close>

text \<open>
  A world with five annotation files and five split files, used to run the
  model on concrete inputs. Its \<open>int\<close> reads unsigned decimal numerals and
  its formatting replaces the first \<open>%s\<close> of the template.
\<close>

fun dec_digits :: "string \<Rightarrow> int \<Rightarrow> error + int" where
  "dec_digits [] acc = Inr acc"
| "dec_digits (c # cs) acc =
     (if 48 \<le> (of_char c :: nat) \<and> (of_char c :: nat) \<le> 57
      then dec_digits cs (10 * acc + int (of_char c - 48))
      else Inl ValueError)"

definition ex_int :: "string \<Rightarrow> error + int" where
  "ex_int s = (if s = [] then Inl ValueError else dec_digits s 0)"

fun ex_fmt :: "string \<Rightarrow> string \<Rightarrow> string" where
  "ex_fmt [] s = []"
| "ex_fmt [c] s = [c]"
| "ex_fmt (c # d # t) s =
     (if c = CHR ''%'' \<and> d = CHR ''s'' then s @ t else c # ex_fmt (d # t) s)"

definition leaf :: "string \<Rightarrow> string \<Rightarrow> xml" where
  "leaf t s = Element t (Some s) []"

definition ex_object :: "string \<Rightarrow> string \<Rightarrow> string \<Rightarrow> string \<Rightarrow> string \<Rightarrow> string \<Rightarrow> xml" where
  "ex_object name d x1 y1 x2 y2 =
     Element ''object'' None
       [leaf ''name'' name, leaf ''difficult'' d,
        Element ''bndbox'' None
          [leaf ''xmin'' x1, leaf ''ymin'' y1, leaf ''xmax'' x2, leaf ''ymax'' y2]]"

definition ex_annotation :: "string \<Rightarrow> string \<Rightarrow> xml list \<Rightarrow> xml" where
  "ex_annotation w h objs =
     Element ''annotation'' None
       (Element ''size'' None [leaf ''width'' w, leaf ''height'' h] # objs)"

text \<open>The decimal numeral of \<open>10 ^ 309\<close>, an integer beyond the range of a double.\<close>

definition huge_text :: string where
  "huge_text = CHR ''1'' # replicate 309 (CHR ''0'')"

definition voc_files :: "string \<Rightarrow> error + xml" where
  "voc_files path =
     (if path = ''tiny.xml'' then
        Inr (ex_annotation ''50'' ''400'' [ex_object ''unicorn'' ''0'' ''1'' ''1'' ''10'' ''10''])
      else if path = ''img1.xml'' then
        Inr (ex_annotation ''500'' ''500''
          [ex_object ''cat'' ''0'' ''10'' ''20'' ''110'' ''220'',
           ex_object ''dog'' ''1'' ''5'' ''5'' ''50'' ''50'',
           ex_object ''cat'' ''0'' ''7'' ''7'' ''7'' ''30''])
      else if path = ''img2.xml'' then Inr (ex_annotation ''500'' ''500'' [])
      else if path = ''big.xml'' then
        Inr (ex_annotation ''500'' ''500''
          [ex_object ''cat'' ''0'' ''16777217'' ''1'' ''16777219'' ''3''])
      else if path = ''bad.xml'' then
        Inr (ex_annotation ''500'' ''500'' [ex_object ''unicorn'' ''0'' ''1'' ''1'' ''10'' ''10''])
      else if path = ''huge.xml'' then
        Inr (ex_annotation ''500'' ''500'' [ex_object ''cat'' ''0'' ''1'' ''1'' huge_text ''3''])
      else Inl OSError)"

definition nl :: "string \<Rightarrow> string" where
  "nl s = s @ [CHR 0x0A]"

definition voc_splits :: "string \<Rightarrow> error + string list" where
  "voc_splits path =
     (if path = ''train.txt'' then Inr [nl ''tiny'', nl ''img1'', nl ''img2'']
      else if path = ''val.txt'' then Inr [nl ''img2'']
      else if path = ''big.txt'' then Inr [nl ''big'']
      else if path = ''bad.txt'' then Inr [nl ''img1'', nl ''bad'']
      else if path = ''tiny.txt'' then Inr [nl ''tiny'']
      else if path = ''huge.txt'' then Inr [nl ''huge'']
      else Inl OSError)"

definition voc :: world where
  "voc = \<lparr> readlines = voc_splits, et_parse = voc_files,
           str_mod = (\<lambda>t s. Inr (ex_fmt t s)), int_of_str = ex_int \<rparr>"

definition voc_cfg :: "string \<Rightarrow> bool \<Rightarrow> string list \<Rightarrow> cfg" where
  "voc_cfg split ieg cs =
     \<lparr> cfg_split_filename = split, cfg_img_filename = ''%s.jpg'',
       cfg_ann_filename = ''%s.xml'', cfg_bbox_yxyx = False, cfg_has_labels = True,
       cfg_keep_difficult = False, cfg_ignore_empty_gt = ieg, cfg_min_img_size = 100,
       cfg_classes = Some cs \<rparr>"

definition voc_parser :: "bool \<Rightarrow> string list \<Rightarrow> parser" where
  "voc_parser ieg cs = new_parser (voc_cfg [] ieg cs)"

definition img1_info :: img_info where
  "img1_info = \<lparr> info_id = ''img1'', file_name = ''img1.jpg'', width = 500, height = 500 \<rparr>"

definition img2_info :: img_info where
  "img2_info = \<lparr> info_id = ''img2'', file_name = ''img2.jpg'', width = 500, height = 500 \<rparr>"

definition big_info :: img_info where
  "big_info = \<lparr> info_id = ''big'', file_name = ''big.jpg'', width = 500, height = 500 \<rparr>"

definition img1_anns :: "raw_ann list" where
  "img1_anns =
     [\<lparr> ann_label = 1, ann_bbox = (10, 20, 110, 220), ann_difficult = 0 \<rparr>,
      \<lparr> ann_label = 2, ann_bbox = (5, 5, 50, 50), ann_difficult = 1 \<rparr>,
      \<lparr> ann_label = 1, ann_bbox = (7, 7, 7, 30), ann_difficult = 0 \<rparr>]"

definition big_anns :: "raw_ann list" where
  "big_anns = [\<lparr> ann_label = 1, ann_bbox = (16777217, 1, 16777219, 3), ann_difficult = 0 \<rparr>]"

text \<open>The parser built from \<open>train.txt\<close> when images without objects are kept.\<close>

definition train_parser :: parser where
  "train_parser =
     (voc_parser False [''cat'', ''dog''])
       \<lparr> img_ids := [''img1'', ''img2''],
         img_infos := [img1_info, img2_info],
         img_id_to_idx := [''img1'' \<mapsto> 1, ''img2'' \<mapsto> 2],
         anns := [img1_anns, []] \<rparr>"

text \<open>The parser built from \<open>train.txt\<close> when images without objects are rejected.\<close>

definition strict_parser :: parser where
  "strict_parser =
     (voc_parser True [''cat'', ''dog''])
       \<lparr> img_ids := [''img1''],
         img_ids_invalid := [''img2''],
         img_infos := [img1_info],
         img_id_to_idx := [''img1'' \<mapsto> 1],
         anns := [img1_anns] \<rparr>"

text \<open>The parser built from \<open>val.txt\<close> with three classes.\<close>

definition val_parser :: parser where
  "val_parser =
     (voc_parser False [''cat'', ''dog'', ''bird''])
       \<lparr> img_ids := [''img2''],
         img_infos := [img2_info],
         img_id_to_idx := [''img2'' \<mapsto> 0],
         anns := [[]] \<rparr>"

text \<open>The parser built from \<open>big.txt\<close>.\<close>

definition big_parser :: parser where
  "big_parser =
     (voc_parser False [''cat'', ''dog''])
       \<lparr> img_ids := [''big''],
         img_infos := [big_info],
         img_id_to_idx := [''big'' \<mapsto> 0],
         anns := [big_anns] \<rparr>"

text \<open>What \<open>get_ann_info\<close> returns for the image of \<open>big.txt\<close>.\<close>

definition big_result :: ann_dict where
  "big_result =
     \<lparr> bbox = \<lparr> shape = (1, 4), rows = [[Fin 16777215, Fin 0, Fin 16777220, Fin 2]] \<rparr>,
       cls = [1], bbox_ignore = None, cls_ignore = None \<rparr>"

text \<open>What \<open>get_ann_info\<close> returns for \<open>img1\<close>.\<close>

definition img1_result :: ann_dict where
  "img1_result =
     \<lparr> bbox = \<lparr> shape = (1, 4), rows = [[Fin 9, Fin 19, Fin 109, Fin 219]] \<rparr>,
       cls = [1], bbox_ignore = None, cls_ignore = None \<rparr>"


text \<open>The parser of \<open>train.txt\<close> with the ignore group switched on.\<close>

definition flagged_parser :: parser where
  "flagged_parser = train_parser\<lparr> include_bboxes_ignore := True \<rparr>"

text \<open>What \<open>get_ann_info\<close> returns for \<open>img1\<close> with the ignore group switched on.\<close>

definition img1_result_all :: ann_dict where
  "img1_result_all =
     \<lparr> bbox = \<lparr> shape = (1, 4), rows = [[Fin 9, Fin 19, Fin 109, Fin 219]] \<rparr>,
       cls = [1],
       bbox_ignore =
         Some \<lparr> shape = (2, 4),
                rows = [[Fin 4, Fin 4, Fin 49, Fin 49], [Fin 6, Fin 6, Fin 6, Fin 29]] \<rparr>,
       cls_ignore = Some [2, 1] \<rparr>"

text \<open>What \<open>get_ann_info\<close> returns for \<open>img2\<close>, which has no object.\<close>

definition img2_result :: ann_dict where
  "img2_result = \<lparr> bbox = np_zeros 0 4, cls = [], bbox_ignore = None, cls_ignore = None \<rparr>"

definition img2_result_all :: ann_dict where
  "img2_result_all =
     \<lparr> bbox = np_zeros 0 4, cls = [], bbox_ignore = Some (np_zeros 0 4), cls_ignore = Some [] \<rparr>"

text \<open>A heap with the parser of \<open>train.txt\<close> at 0 and the one of \<open>val.txt\<close> elsewhere.\<close>

definition ex_heap :: heap where
  "ex_heap r = (if r = 0 then train_parser else val_parser)"

section \<open>Loading: what every entry preserves\<close>

lemma load_one_cases:
  assumes "load_one w c p (i, line) = Inr p'"
  obtains
    (skip) fn root wd ht where
      "read_image w c (strip_nl line) = Inr (fn, root, wd, ht)"
      "min wd ht < min_img_size p" "p' = p"
  | (keep) fn root wd ht new where
      "read_image w c (strip_nl line) = Inr (fn, root, wd, ht)"
      "\<not> min wd ht < min_img_size p"
      "parse_objects w p (xml_findall ''object'' root) [] = Inr new"
      "\<not> ignore_empty_gt p \<or> new \<noteq> []"
      "p' = p\<lparr> anns := anns p @ [new],
               img_infos := img_infos p @
                 [\<lparr> info_id = strip_nl line, file_name = fn, width = wd, height = ht \<rparr>],
               img_ids := img_ids p @ [strip_nl line],
               img_id_to_idx := (img_id_to_idx p)(strip_nl line \<mapsto> i) \<rparr>"
  | (reject) fn root wd ht where
      "read_image w c (strip_nl line) = Inr (fn, root, wd, ht)"
      "\<not> min wd ht < min_img_size p"
      "parse_objects w p (xml_findall ''object'' root) [] = Inr []"
      "ignore_empty_gt p"
      "p' = p\<lparr> img_ids_invalid := img_ids_invalid p @ [strip_nl line] \<rparr>"
  using assms
  unfolding load_one_def Let_def
  by (auto split: sum.splits prod.splits if_splits)

lemma same_config_refl: "same_config p p"
  by (simp add: same_config_def)

lemma same_config_trans: "same_config p q \<Longrightarrow> same_config q r \<Longrightarrow> same_config p r"
  by (simp add: same_config_def)

lemma load_one_config:
  assumes "load_one w c p e = Inr p'"
  shows "same_config p p'"
proof -
  from assms have "load_one w c p (fst e, snd e) = Inr p'" by simp
  then show ?thesis by (cases rule: load_one_cases) (simp_all add: same_config_def)
qed

lemma load_loop_config: "load_loop w c p es = Inr p' \<Longrightarrow> same_config p p'"
proof (induction es arbitrary: p)
  case Nil
  then show ?case by (simp add: same_config_refl)
next
  case (Cons e es)
  then obtain q where q: "load_one w c p e = Inr q" "load_loop w c q es = Inr p'"
    by (auto split: sum.splits)
  from load_one_config [OF q(1)] Cons.IH [OF q(2)] show ?case
    by (rule same_config_trans)
qed

lemma init_load_loop:
  "init w c = Inr p \<longleftrightarrow>
     (\<exists>ids. readlines w (cfg_split_filename c) = Inr ids \<and>
            load_loop w c (new_parser c) (enumerate 0 ids) = Inr p)"
  by (auto simp: init_def load_annotations_def new_parser_def split: sum.splits)

lemma init_config:
  assumes "init w c = Inr p"
  shows "same_config (new_parser c) p"
  using assms load_loop_config by (auto simp: init_load_loop)

lemma load_one_aligned:
  assumes "load_one w c p e = Inr p'" and "aligned p"
  shows "aligned p'"
proof -
  from assms have "load_one w c p (fst e, snd e) = Inr p'" by simp
  then show ?thesis using assms(2) by (cases rule: load_one_cases) (simp_all add: aligned_def)
qed

lemma load_loop_aligned: "load_loop w c p es = Inr p' \<Longrightarrow> aligned p \<Longrightarrow> aligned p'"
proof (induction es arbitrary: p)
  case Nil
  then show ?case by simp
next
  case (Cons e es)
  then obtain q where q: "load_one w c p e = Inr q" "load_loop w c q es = Inr p'"
    by (auto split: sum.splits)
  from load_one_aligned [OF q(1) Cons.prems(2)] Cons.IH [OF q(2)] show ?case
    by blast
qed

lemma init_aligned: "init w c = Inr p \<Longrightarrow> aligned p"
  by (auto simp: init_load_loop dest!: load_loop_aligned simp: aligned_def new_parser_def)

lemma merge_aligned: "merge a b = Inr a' \<Longrightarrow> aligned a \<Longrightarrow> aligned b \<Longrightarrow> aligned a'"
  by (auto simp: merge_def Let_def aligned_def split: if_splits)

lemma built_aligned: "built w p \<Longrightarrow> aligned p"
  by (induction rule: built.induct) (auto intro: init_aligned merge_aligned)

lemma load_one_size_ok:
  assumes "load_one w c p e = Inr p'" and "size_ok w c p"
  shows "size_ok w c p'"
proof -
  from assms have "load_one w c p (fst e, snd e) = Inr p'" by simp
  then show ?thesis using assms(2) by (cases rule: load_one_cases) (auto simp: size_ok_def)
qed

lemma load_loop_size_ok: "load_loop w c p es = Inr p' \<Longrightarrow> size_ok w c p \<Longrightarrow> size_ok w c p'"
proof (induction es arbitrary: p)
  case Nil
  then show ?case by simp
next
  case (Cons e es)
  then obtain q where q: "load_one w c p e = Inr q" "load_loop w c q es = Inr p'"
    by (auto split: sum.splits)
  from load_one_size_ok [OF q(1) Cons.prems(2)] Cons.IH [OF q(2)] show ?case
    by blast
qed

lemma init_size_ok: "init w c = Inr p \<Longrightarrow> size_ok w c p"
  by (auto simp: init_load_loop dest!: load_loop_size_ok simp: size_ok_def new_parser_def)

lemma init_min_img_size: "init w c = Inr p \<Longrightarrow> min_img_size p = cfg_min_img_size c"
  by (drule init_config) (simp add: same_config_def new_parser_def)

text \<open>
  C5. An image whose annotation gives \<open>min(width, height) < min_img_size\<close> is
  skipped: after construction its identifier is neither in \<open>img_ids\<close> nor in
  \<open>img_ids_invalid\<close>, and every retained image has
  \<open>min(width, height) \<ge> min_img_size\<close>, both in its stored info and in its
  annotation file.
\<close>

theorem small_images_skipped:
  assumes "init w c = Inr p"
    and "read_image w c img_id = Inr (fn, root, wd, ht)"
    and "min wd ht < cfg_min_img_size c"
  shows "img_id \<notin> set (img_ids p) \<and> img_id \<notin> set (img_ids_invalid p) \<and>
         (\<forall>info \<in> set (img_infos p). cfg_min_img_size c \<le> min (width info) (height info)) \<and>
         (\<forall>i \<in> set (img_ids p). \<exists>fn' root' wd' ht'.
            read_image w c i = Inr (fn', root', wd', ht') \<and> cfg_min_img_size c \<le> min wd' ht')"
proof -
  have ok: "size_ok w c p" and m: "min_img_size p = cfg_min_img_size c"
    using assms(1) by (rule init_size_ok, rule init_min_img_size)
  have "img_id \<notin> set (img_ids p) \<union> set (img_ids_invalid p)"
  proof
    assume "img_id \<in> set (img_ids p) \<union> set (img_ids_invalid p)"
    with ok obtain fn' root' wd' ht' where
      "read_image w c img_id = Inr (fn', root', wd', ht')" "min_img_size p \<le> min wd' ht'"
      unfolding size_ok_def by blast
    with assms(2,3) m show False by auto
  qed
  moreover have "\<forall>info \<in> set (img_infos p). cfg_min_img_size c \<le> min (width info) (height info)"
    using ok m unfolding size_ok_def by simp
  moreover have "\<forall>i \<in> set (img_ids p). \<exists>fn' root' wd' ht'.
            read_image w c i = Inr (fn', root', wd', ht') \<and> cfg_min_img_size c \<le> min wd' ht'"
    using ok m unfolding size_ok_def by simp
  ultimately show ?thesis by simp
qed

lemmas ex_defs = voc_def voc_cfg_def voc_files_def voc_splits_def nl_def ex_int_def
  leaf_def ex_object_def ex_annotation_def voc_parser_def img1_info_def img2_info_def
  big_info_def img1_anns_def big_anns_def

lemmas load_defs = init_def load_annotations_def load_one_def read_image_def
  parse_object_def lookup_label_def find_int_def find_text_def xml_find_def xml_findall_def
  strip_nl_def Let_def new_parser_def classes_of_def build_cat_to_label_def enumerate_eq_zip
  numeral_2_eq_2

lemma init_train: "init voc (voc_cfg ''train.txt'' False [''cat'', ''dog'']) = Inr train_parser"
  by (simp add: ex_defs load_defs train_parser_def)

lemma init_strict: "init voc (voc_cfg ''train.txt'' True [''cat'', ''dog'']) = Inr strict_parser"
  by (simp add: ex_defs load_defs strict_parser_def)

lemma init_val: "init voc (voc_cfg ''val.txt'' False [''cat'', ''dog'', ''bird'']) = Inr val_parser"
  by (simp add: ex_defs load_defs val_parser_def)

lemma init_big: "init voc (voc_cfg ''big.txt'' False [''cat'', ''dog'']) = Inr big_parser"
  by (simp add: ex_defs load_defs big_parser_def)

lemma read_tiny:
  "read_image voc (voc_cfg split ieg cs) ''tiny'' =
     Inr (''tiny.jpg'',
          ex_annotation ''50'' ''400'' [ex_object ''unicorn'' ''0'' ''1'' ''1'' ''10'' ''10''],
          50, 400)"
  by (simp add: ex_defs load_defs)

theorem small_images_skipped_witness:
  "readlines voc ''train.txt'' = Inr [nl ''tiny'', nl ''img1'', nl ''img2''] \<and>
   strip_nl (nl ''tiny'') = ''tiny'' \<and>
   init voc (voc_cfg ''train.txt'' True [''cat'', ''dog'']) = Inr strict_parser \<and>
   min (50::int) 400 < cfg_min_img_size (voc_cfg ''train.txt'' True [''cat'', ''dog'']) \<and>
   ''tiny'' \<notin> set (img_ids strict_parser) \<and> ''tiny'' \<notin> set (img_ids_invalid strict_parser) \<and>
   img_ids strict_parser = [''img1''] \<and> img_ids_invalid strict_parser = [''img2'']"
proof -
  have m: "min (50::int) 400 < cfg_min_img_size (voc_cfg ''train.txt'' True [''cat'', ''dog''])"
    by (simp add: voc_cfg_def)
  from small_images_skipped [OF init_strict read_tiny m]
  have "''tiny'' \<notin> set (img_ids strict_parser) \<and> ''tiny'' \<notin> set (img_ids_invalid strict_parser)"
    by blast
  moreover have "readlines voc ''train.txt'' = Inr [nl ''tiny'', nl ''img1'', nl ''img2'']"
    by (simp add: voc_def voc_splits_def)
  moreover have "strip_nl (nl ''tiny'') = ''tiny''"
    by (simp add: strip_nl_def nl_def)
  moreover have "img_ids strict_parser = [''img1''] \<and> img_ids_invalid strict_parser = [''img2'']"
    by (simp add: strict_parser_def)
  ultimately show ?thesis using init_strict m by blast
qed

section \<open>Unknown class names\<close>



lemma dom_fold_cat:
  "dom (fold (\<lambda>(i, cat) m. m(cat \<mapsto> int i + 1)) (enumerate n cs) m) = dom m \<union> set cs"
  by (induction cs arbitrary: n m) auto

lemma dom_build_cat_to_label: "dom (build_cat_to_label cs) = set cs"
  by (simp add: build_cat_to_label_def dom_fold_cat)







section \<open>The identifier map and merging\<close>

text \<open>
  C1 on \<open>train.txt\<close>, whose first image is skipped for its size: the map
  sends \<open>img1\<close> to 1, where \<open>img_ids\<close> holds \<open>img2\<close>, and \<open>img2\<close> to 2,
  which is no position of \<open>img_ids\<close>. The entry recorded at line 76 is the
  line number in the split file, not the position in \<open>img_ids\<close>.
\<close>

theorem index_past_the_end:
  "init voc (voc_cfg ''train.txt'' False [''cat'', ''dog'']) = Inr train_parser \<and>
   img_ids train_parser = [''img1'', ''img2''] \<and>
   img_id_to_idx train_parser ''img1'' = Some 1 \<and>
   img_ids train_parser ! 1 = ''img2'' \<and>
   img_id_to_idx train_parser ''img2'' = Some 2 \<and>
   length (img_ids train_parser) = 2"
  using init_train by (simp add: train_parser_def)

text \<open>
  C6 on \<open>train.txt\<close> when images without objects are rejected: \<open>img1\<close>
  passes the size check and is appended at position 0 of the three sequences,
  \<open>img2\<close> goes to the rejected list, and the map records 1 for \<open>img1\<close>,
  its line number in the split file.
\<close>

theorem recorded_index_is_line_number:
  "init voc (voc_cfg ''train.txt'' True [''cat'', ''dog'']) = Inr strict_parser \<and>
   img_ids strict_parser = [''img1''] \<and>
   img_infos strict_parser = [img1_info] \<and>
   anns strict_parser = [img1_anns] \<and>
   img_ids_invalid strict_parser = [''img2''] \<and>
   img_id_to_idx strict_parser ''img1'' = Some 1"
  using init_strict by (simp add: strict_parser_def)

lemma init_cat_ids: "init w c = Inr p \<Longrightarrow> cat_ids p = []"
  by (drule init_config) (simp add: same_config_def new_parser_def)

lemma merge_config: "merge a b = Inr a' \<Longrightarrow> same_config a a'"
  by (auto simp: merge_def Let_def same_config_def split: if_splits)

lemma built_cat_ids: "built w p \<Longrightarrow> cat_ids p = []"
  by (induction rule: built.induct) (auto dest: init_cat_ids merge_config simp: same_config_def)

lemma built_merge_succeeds:
  assumes "built w a" and "built w b"
  shows "\<exists>a'. merge a b = Inr a'"
  using assms by (simp add: merge_def Let_def built_cat_ids)

lemma cat_table_train: "card (dom (cat_to_label train_parser)) = 2"
  by (simp add: train_parser_def voc_parser_def new_parser_def dom_build_cat_to_label
      classes_of_def voc_cfg_def)

lemma cat_table_val: "card (dom (cat_to_label val_parser)) = 3"
  by (simp add: val_parser_def voc_parser_def new_parser_def dom_build_cat_to_label
      classes_of_def voc_cfg_def)

text \<open>
  C2 on two constructed parsers whose category tables have two and three
  entries: \<open>merge\<close> raises nothing and extends the first parser. The
  assertion of line 82 compares \<open>cat_ids\<close>, which is empty in every
  constructed parser.
\<close>

theorem merge_ignores_category_tables:
  "init voc (voc_cfg ''train.txt'' False [''cat'', ''dog'']) = Inr train_parser \<and>
   init voc (voc_cfg ''val.txt'' False [''cat'', ''dog'', ''bird'']) = Inr val_parser \<and>
   card (dom (cat_to_label train_parser)) = 2 \<and>
   card (dom (cat_to_label val_parser)) = 3 \<and>
   ex_heap 0 = train_parser \<and> ex_heap 1 = val_parser \<and>
   fst (merge_ref ex_heap 0 1) = None \<and>
   img_ids (ex_heap 0) = [''img1'', ''img2''] \<and>
   img_ids (snd (merge_ref ex_heap 0 1) 0) = [''img1'', ''img2'', ''img2'']"
  using init_train init_val cat_table_train cat_table_val
  by (simp add: merge_ref_def merge_def ex_heap_def train_parser_def val_parser_def
      voc_parser_def new_parser_def)

text \<open>
  C7. After a successful \<open>a.merge(b)\<close> the sequences of \<open>a\<close> are its old
  ones followed by those of \<open>b\<close>, so the length is the sum of the two
  lengths, and every identifier of \<open>b\<close> is mapped to the old length of \<open>a\<close>
  plus its index in \<open>b\<close>. A second parser \<open>b\<close>, like every object other
  than \<open>a\<close>, is unchanged.
\<close>

theorem merge_appends:
  assumes "merge_ref h a b = (None, h')"
  shows "img_ids (h' a) = img_ids (h a) @ img_ids (h b) \<and>
         img_infos (h' a) = img_infos (h a) @ img_infos (h b) \<and>
         anns (h' a) = anns (h a) @ anns (h b) \<and>
         length (img_ids (h' a)) = length (img_ids (h a)) + length (img_ids (h b)) \<and>
         (\<forall>i idx. img_id_to_idx (h b) i = Some idx \<longrightarrow>
            img_id_to_idx (h' a) i = Some (length (img_ids (h a)) + idx)) \<and>
         (\<forall>i. img_id_to_idx (h b) i = None \<longrightarrow> img_id_to_idx (h' a) i = img_id_to_idx (h a) i) \<and>
         (a \<noteq> b \<longrightarrow> h' b = h b) \<and> (\<forall>r. r \<noteq> a \<longrightarrow> h' r = h r)"
  using assms
  by (auto simp: merge_ref_def merge_def Let_def split: sum.splits if_splits)

lemma merge_ref_fails:
  assumes "merge_ref h a b = (Some e, h')"
  shows "e = AssertionError \<and> h' = h \<and> length (cat_ids (h a)) \<noteq> length (cat_ids (h b))"
  using assms
  by (auto simp: merge_ref_def merge_def Let_def split: sum.splits if_splits)

theorem merge_appends_witness:
  "(0::nat) \<noteq> 1 \<and> fst (merge_ref ex_heap 0 1) = None \<and>
   length (img_ids (ex_heap 0)) = 2 \<and> img_id_to_idx (ex_heap 1) ''img2'' = Some 0 \<and>
   length (img_ids (snd (merge_ref ex_heap 0 1) 0)) = 3 \<and>
   img_id_to_idx (snd (merge_ref ex_heap 0 1) 0) ''img2'' = Some 2 \<and>
   snd (merge_ref ex_heap 0 1) 1 = val_parser"
proof -
  have ne: "(0::nat) \<noteq> 1" by simp
  have ok: "fst (merge_ref ex_heap 0 1) = None"
    by (simp add: merge_ref_def merge_def ex_heap_def train_parser_def val_parser_def
        voc_parser_def new_parser_def)
  then have m: "merge_ref ex_heap 0 1 = (None, snd (merge_ref ex_heap 0 1))"
    by (metis prod.collapse)
  have a: "length (img_ids (ex_heap 0)) = 2" and b: "img_id_to_idx (ex_heap 1) ''img2'' = Some 0"
    and v: "ex_heap 1 = val_parser" and l: "length (img_ids val_parser) = 1"
    by (simp_all add: ex_heap_def train_parser_def val_parser_def)
  from merge_appends [OF m] ne a b v l
  have "length (img_ids (snd (merge_ref ex_heap 0 1) 0)) = 3 \<and>
        img_id_to_idx (snd (merge_ref ex_heap 0 1) 0) ''img2'' = Some 2 \<and>
        snd (merge_ref ex_heap 0 1) 1 = val_parser"
    by simp
  with ne ok a b show ?thesis by blast
qed

lemma built_no_ignore: "built w p \<Longrightarrow> \<not> include_bboxes_ignore p"
proof (induction rule: built.induct)
  case (built_init c p)
  then show ?case by (auto dest!: init_config simp: same_config_def new_parser_def)
next
  case (built_merge a b a')
  then show ?case by (auto dest!: merge_config simp: same_config_def)
qed

text \<open>
  C10. The constructor sets \<open>include_bboxes_ignore\<close> to \<open>False\<close> whatever
  the configuration, and \<open>merge\<close> keeps it; so for every constructed or merged
  parser, every record \<open>get_ann_info\<close> returns has no \<open>bbox_ignore\<close> and no
  \<open>cls_ignore\<close> key.
\<close>

theorem ignore_keys_never_present:
  assumes "built w p"
  shows "\<not> include_bboxes_ignore p \<and>
         (\<forall>idx r. get_ann_info p idx = Inr r \<longrightarrow> bbox_ignore r = None \<and> cls_ignore r = None)"
proof -
  have off: "\<not> include_bboxes_ignore p"
    using assms by (rule built_no_ignore)
  have "bbox_ignore r = None \<and> cls_ignore r = None" if "parse_ann_info p ann_info = Inr r"
    for ann_info r
    using that off by (auto simp: parse_ann_info_def split: prod.splits sum.splits)
  then show ?thesis
    using off by (auto simp: get_ann_info_def split: sum.splits)
qed

section \<open>float32 is exact on small integers\<close>

lemma bitlen_le: "0 \<le> n \<Longrightarrow> n < 2 ^ k \<Longrightarrow> bitlen n \<le> k"
proof (induction k arbitrary: n)
  case 0
  then have "n = 0" by simp
  then show ?case by (simp add: bitlen.simps)
next
  case (Suc k)
  show ?case
  proof (cases "n \<le> 0")
    case True
    then show ?thesis by (simp add: bitlen.simps)
  next
    case False
    have "n div 2 < 2 ^ k" using Suc.prems by simp
    moreover have "0 \<le> n div 2" using Suc.prems by simp
    ultimately have "bitlen (n div 2) \<le> k" using Suc.IH by blast
    with False show ?thesis by (subst bitlen.simps) simp
  qed
qed

lemma rne_exact: "\<bar>n\<bar> < 2 ^ p \<Longrightarrow> rne p n = n"
  using bitlen_le [of "\<bar>n\<bar>" p] by (simp add: rne_def)

lemma rne_24_top: "rne 24 16777216 = 16777216" and rne_24_bot: "rne 24 (- 16777216) = - 16777216"
  by code_simp+

lemma f32_round_exact:
  assumes "\<bar>n\<bar> \<le> 2 ^ 24"
  shows "f32_round n = Fin n"
proof -
  consider "\<bar>n\<bar> < 2 ^ 24" | "n = 16777216" | "n = - 16777216"
    using assms by fastforce
  then have r: "rne 24 n = n"
    by cases (simp_all add: rne_exact rne_24_top rne_24_bot)
  have "\<not> 2 ^ 128 \<le> n" and "\<not> n \<le> - (2 ^ 128)"
    using assms by simp_all
  then show ?thesis
    unfolding f32_round_def r by (simp add: Let_def)
qed

lemma f32_of_int_exact:
  assumes "\<bar>n\<bar> \<le> 2 ^ 24"
  shows "f32_of_int n = Inr (Fin n)"
proof -
  have "\<bar>n\<bar> < 2 ^ 53" using assms by simp
  then have r: "rne 53 n = n" by (rule rne_exact)
  have "\<bar>n\<bar> < 2 ^ 1024" using assms by simp
  then show ?thesis
    unfolding f32_of_int_def r using f32_round_exact [OF assms] by simp
qed

lemma f32_sub1_exact:
  assumes "- (2 ^ 24) < n" and "n \<le> 2 ^ 24"
  shows "f32_sub1 (Fin n) = Fin (n - 1)"
  using assms by (simp add: f32_round_exact)

lemma f32_of_int_total:
  assumes "\<bar>n\<bar> < 2 ^ 53"
  shows "\<exists>x. f32_of_int n = Inr x"
proof -
  have r: "rne 53 n = n" using assms by (rule rne_exact)
  have "\<bar>n\<bar> < 2 ^ 1024" using assms by simp
  then show ?thesis unfolding f32_of_int_def r by simp
qed

section \<open>Normalisation\<close>


lemma map_err_exact: "(\<And>x. x \<in> set xs \<Longrightarrow> f x = Inr (g x)) \<Longrightarrow> map_err f xs = Inr (map g xs)"
  by (induction xs) auto

lemma map_err_member:
  "map_err f xs = Inr ys \<Longrightarrow> x \<in> set xs \<Longrightarrow> \<exists>y \<in> set ys. f x = Inr y"
  by (induction xs arbitrary: ys) (auto split: sum.splits)

lemma partition_anns_eq:
  "partition_anns p as (b, l, bi, li) =
     (b @ map (box_of p) (filter (usable p) as),
      l @ map ann_label (filter (usable p) as),
      bi @ map (box_of p) (filter (\<lambda>a. \<not> usable p a) as),
      li @ map ann_label (filter (\<lambda>a. \<not> usable p a) as))"
  by (induction as arbitrary: b l bi li)
     (auto simp: usable_def box_of_def Let_def split: prod.splits)

lemma partition_anns_start:
  "partition_anns p as ([], [], [], []) =
     (map (box_of p) (filter (usable p) as),
      map ann_label (filter (usable p) as),
      map (box_of p) (filter (\<lambda>a. \<not> usable p a) as),
      map ann_label (filter (\<lambda>a. \<not> usable p a) as))"
  by (simp add: partition_anns_eq)


text \<open>What \<open>to_arrays\<close> returns.\<close>

lemma to_arrays_empty: "to_arrays [] labels = Inr (np_zeros 0 4, [])"
  by (simp add: to_arrays_def)

lemma to_arrays_Inr:
  assumes "to_arrays bs ls = Inr (b, l)" and "bs \<noteq> []"
  obtains rs where "map_err (map_err f32_of_int) bs = Inr rs"
    and "b = \<lparr> shape = (length bs, length (hd bs)), rows = map (map f32_sub1) rs \<rparr>"
    and "map_err f32_of_int ls = Inr l"
proof -
  from assms(2) obtain x xs where bs: "bs = x # xs" by (cases bs) auto
  from assms(1) bs obtain a where a: "np_array2 (x # xs) = Inr a" "np_array1 ls = Inr l"
    "b = np_sub1 a"
    by (auto simp: to_arrays_def split: sum.splits)
  from a(1) obtain rs where rs: "map_err (map_err f32_of_int) (x # xs) = Inr rs"
    "a = \<lparr> shape = (Suc (length xs), length x), rows = rs \<rparr>"
    by (auto split: if_splits sum.splits)
  show thesis
    using rs a(2,3) bs by (intro that [of rs]) (simp_all add: np_sub1_def np_array1_def)
qed


lemma get_ann_info_valid:
  "py_index (length (anns p)) idx = Inr j \<Longrightarrow> get_ann_info p idx = parse_ann_info p (anns p ! j)"
  by (simp add: get_ann_info_def)

lemma py_index_Inr: "py_index n idx = Inr j \<Longrightarrow> j < n"
  by (auto simp: py_index_def Let_def split: if_splits)

lemma py_index_nat: "0 \<le> idx \<Longrightarrow> idx < int n \<Longrightarrow> py_index n idx = Inr (nat idx)"
  by (simp add: py_index_def)

lemma np_zeros_sel [simp]: "rows (np_zeros 0 c) = []" "shape (np_zeros r c) = (r, c)"
  by (simp_all add: np_zeros_def)

lemma parse_ann_info_Inr:
  assumes "parse_ann_info p ann_info = Inr r"
    and "partition_anns p ann_info ([], [], [], []) = (bboxes, labels, bboxes_ignore, labels_ignore)"
  shows "\<exists>l. to_arrays bboxes labels = Inr (bbox r, l) \<and> cls r = astype_int64 l \<and>
           (if include_bboxes_ignore p then
              \<exists>bi li. to_arrays bboxes_ignore labels_ignore = Inr (bi, li) \<and>
                      bbox_ignore r = Some bi \<and> cls_ignore r = Some (astype_int64 li)
            else bbox_ignore r = None \<and> cls_ignore r = None)"
  using assms
  by (auto simp: parse_ann_info_def split: sum.splits prod.splits if_splits)

text \<open>
  C3, as amended. When \<open>get_ann_info\<close> returns for a position, every
  stored annotation of that image with \<open>x2 - x1 \<ge> 1\<close>, \<open>y2 - y1 \<ge> 1\<close>,
  difficulty 0 and coordinates \<open>c\<close> with \<open>- 2 ^ 24 < c \<le> 2 ^ 24\<close> has the
  row \<open>[x1 - 1, y1 - 1, x2 - 1, y2 - 1]\<close> in \<open>bbox\<close>, or
  \<open>[y1 - 1, x1 - 1, y2 - 1, x2 - 1]\<close> when \<open>yxyx\<close> is set: float32 holds
  these integers exactly, and one is subtracted once.
\<close>

theorem usable_box_shifted_once:
  assumes "py_index (length (anns p)) idx = Inr j"
    and "ann \<in> set (anns p ! j)" and "ann_bbox ann = (x1, y1, x2, y2)"
    and "1 \<le> x2 - x1" and "1 \<le> y2 - y1" and "ann_difficult ann = 0"
    and "\<forall>c \<in> {x1, y1, x2, y2}. - (2 ^ 24) < c \<and> c \<le> 2 ^ 24"
    and "get_ann_info p idx = Inr r"
  shows "(if yxyx p then [Fin (y1 - 1), Fin (x1 - 1), Fin (y2 - 1), Fin (x2 - 1)]
          else [Fin (x1 - 1), Fin (y1 - 1), Fin (x2 - 1), Fin (y2 - 1)]) \<in> set (rows (bbox r))"
proof -
  let ?as = "anns p ! j"
  let ?bboxes = "map (box_of p) (filter (usable p) ?as)"
  have r: "parse_ann_info p ?as = Inr r"
    using assms(1,8) by (simp add: get_ann_info_valid)
  have "usable p ann"
    using assms(3-6) by (simp add: usable_def)
  then have box: "box_of p ann \<in> set ?bboxes"
    using assms(2) by simp
  from length_pos_if_in_set [OF box] have ne: "?bboxes \<noteq> []" by simp
  from parse_ann_info_Inr [OF r partition_anns_start]
  obtain l where l: "to_arrays ?bboxes (map ann_label (filter (usable p) ?as)) = Inr (bbox r, l)"
    by blast
  from l ne obtain rs where rs: "map_err (map_err f32_of_int) ?bboxes = Inr rs"
    and b: "bbox r = \<lparr> shape = (length ?bboxes, length (hd ?bboxes)), rows = map (map f32_sub1) rs \<rparr>"
    by (rule to_arrays_Inr)
  from map_err_member [OF rs box] obtain y where y: "y \<in> set rs"
    "map_err f32_of_int (box_of p ann) = Inr y"
    by blast
  have small: "- (2 ^ 24) < c \<and> c \<le> 2 ^ 24" if "c \<in> set (box_of p ann)" for c
    using that assms(3,7) by (auto simp: box_of_def split: if_splits)
  have "map_err f32_of_int (box_of p ann) = Inr (map Fin (box_of p ann))"
  proof (rule map_err_exact)
    fix c assume "c \<in> set (box_of p ann)"
    from small [OF this] have "\<bar>c\<bar> \<le> 2 ^ 24" by (simp add: abs_le_iff)
    then show "f32_of_int c = Inr (Fin c)" by (rule f32_of_int_exact)
  qed
  with y(2) have "y = map Fin (box_of p ann)" by simp
  with y(1) have "map f32_sub1 (map Fin (box_of p ann)) \<in> map f32_sub1 ` set rs"
    by (intro imageI) simp
  then have "map f32_sub1 (map Fin (box_of p ann)) \<in> set (rows (bbox r))"
    unfolding b by simp
  moreover have "map f32_sub1 (map Fin (box_of p ann)) = map (\<lambda>c. Fin (c - 1)) (box_of p ann)"
    using small by (simp add: f32_sub1_exact del: f32_sub1.simps)
  ultimately show ?thesis
    using assms(3) by (simp add: box_of_def split: if_splits)
qed

text \<open>
  \<open>get_ann_info\<close> returns at every valid position whose labels and
  coordinates are below \<open>2 ^ 53\<close> in absolute value.
\<close>

lemma map_err_total:
  "(\<And>x. x \<in> set xs \<Longrightarrow> \<exists>y. f x = Inr y) \<Longrightarrow> \<exists>ys. map_err f xs = Inr ys"
proof (induction xs)
  case Nil
  then show ?case by simp
next
  case (Cons x xs)
  then obtain y ys where "f x = Inr y" "map_err f xs = Inr ys"
    by (meson list.set_intros)
  then show ?case by simp
qed

lemma to_arrays_total:
  assumes "\<forall>b \<in> set bs. length b = 4 \<and> (\<forall>c \<in> set b. \<bar>c\<bar> < 2 ^ 53)"
    and "\<forall>l \<in> set ls. \<bar>l\<bar> < 2 ^ 53"
  shows "\<exists>r. to_arrays bs ls = Inr r"
proof (cases bs)
  case Nil
  then show ?thesis by (simp add: to_arrays_def)
next
  case (Cons x xs)
  have same: "list_all (\<lambda>y. length y = length x) xs"
    using assms(1) Cons by (simp add: list_all_iff)
  have "\<exists>y. map_err f32_of_int b = Inr y" if "b \<in> set bs" for b
    using that assms(1) by (intro map_err_total f32_of_int_total) blast
  then obtain rs where rs: "map_err (map_err f32_of_int) (x # xs) = Inr rs"
    using map_err_total [of bs "map_err f32_of_int"] Cons by blast
  obtain l where l: "map_err f32_of_int ls = Inr l"
    using map_err_total [of ls f32_of_int] assms(2) f32_of_int_total by blast
  show ?thesis
    using same rs l Cons by (simp add: to_arrays_def np_array1_def)
qed

lemma get_ann_info_returns:
  assumes "py_index (length (anns p)) idx = Inr j"
    and "\<forall>a \<in> set (anns p ! j). \<bar>ann_label a\<bar> < 2 ^ 53 \<and>
           (\<forall>x1 y1 x2 y2. ann_bbox a = (x1, y1, x2, y2) \<longrightarrow>
              \<bar>x1\<bar> < 2 ^ 53 \<and> \<bar>y1\<bar> < 2 ^ 53 \<and> \<bar>x2\<bar> < 2 ^ 53 \<and> \<bar>y2\<bar> < 2 ^ 53)"
  shows "\<exists>r. get_ann_info p idx = Inr r"
proof -
  let ?as = "anns p ! j"
  have box: "length (box_of p a) = 4 \<and> (\<forall>c \<in> set (box_of p a). \<bar>c\<bar> < 2 ^ 53)"
    if "a \<in> set ?as" for a
  proof -
    obtain x1 y1 x2 y2 where c: "ann_bbox a = (x1, y1, x2, y2)"
      by (cases "ann_bbox a") auto
    with assms(2) that have "\<bar>x1\<bar> < 2 ^ 53 \<and> \<bar>y1\<bar> < 2 ^ 53 \<and> \<bar>x2\<bar> < 2 ^ 53 \<and> \<bar>y2\<bar> < 2 ^ 53"
      by blast
    with c show ?thesis by (simp add: box_of_def)
  qed
  have u: "\<exists>r. to_arrays (map (box_of p) (filter P ?as)) (map ann_label (filter P ?as)) = Inr r"
    for P
    using box assms(2) by (intro to_arrays_total) auto
  from u [of "usable p"] u [of "\<lambda>a. \<not> usable p a"]
  have "\<exists>r. parse_ann_info p ?as = Inr r"
    by (auto simp: parse_ann_info_def partition_anns_start)
  then show ?thesis
    using assms(1) by (simp add: get_ann_info_valid)
qed

subsection \<open>The normalisation on the small dataset\<close>

lemma get_img1: "get_ann_info train_parser 0 = Inr img1_result"
  by code_simp

lemma get_big: "get_ann_info big_parser 0 = Inr big_result"
  by code_simp

theorem usable_box_shifted_once_witness:
  "py_index (length (anns train_parser)) 0 = Inr 0 \<and>
   anns train_parser ! 0 = img1_anns \<and>
   get_ann_info train_parser 0 = Inr img1_result \<and>
   [Fin 9, Fin 19, Fin 109, Fin 219] \<in> set (rows (bbox img1_result))"
proof -
  let ?ann = "\<lparr> ann_label = 1, ann_bbox = (10, 20, 110, 220), ann_difficult = 0 \<rparr>"
  have a: "anns train_parser ! 0 = img1_anns"
    by (simp add: train_parser_def)
  have h: "py_index (length (anns train_parser)) 0 = Inr 0"
    "?ann \<in> set (anns train_parser ! 0)" "ann_bbox ?ann = (10, 20, 110, 220)"
    "(1::int) \<le> 110 - 10" "(1::int) \<le> 220 - 20" "ann_difficult ?ann = 0"
    "\<forall>c \<in> {10, 20, 110, 220::int}. - (2 ^ 24) < c \<and> c \<le> 2 ^ 24"
    by (simp_all add: train_parser_def img1_anns_def py_index_def)
  from usable_box_shifted_once [OF h get_img1]
  have "[Fin 9, Fin 19, Fin 109, Fin 219] \<in> set (rows (bbox img1_result))"
    by (simp add: train_parser_def voc_parser_def new_parser_def voc_cfg_def)
  with a h(1) get_img1 show ?thesis by blast
qed

text \<open>
  C3 as stated fails beyond the integers float32 holds: the stored box
  \<open>[16777217, 1, 16777219, 3]\<close> of \<open>big.txt\<close> is usable and comes out as
  \<open>[16777215, 0, 16777220, 2]\<close>, not as \<open>[16777216, 0, 16777218, 2]\<close>.
\<close>

theorem usable_box_shifted_once_counterexample:
  "init voc (voc_cfg ''big.txt'' False [''cat'', ''dog'']) = Inr big_parser \<and>
   anns big_parser =
     [[\<lparr> ann_label = 1, ann_bbox = (16777217, 1, 16777219, 3), ann_difficult = 0 \<rparr>]] \<and>
   yxyx big_parser = False \<and>
   get_ann_info big_parser 0 = Inr big_result \<and>
   rows (bbox big_result) = [[Fin 16777215, Fin 0, Fin 16777220, Fin 2]] \<and>
   [Fin (16777217 - 1), Fin (1 - 1), Fin (16777219 - 1), Fin (3 - 1)] \<notin> set (rows (bbox big_result))"
  using init_big get_big
  by (simp add: big_parser_def big_anns_def big_result_def voc_parser_def new_parser_def voc_cfg_def)

theorem ignore_keys_never_present_witness:
  "built voc train_parser \<and> get_ann_info train_parser 0 = Inr img1_result \<and>
   bbox_ignore img1_result = None \<and> cls_ignore img1_result = None"
proof -
  have b: "built voc train_parser"
    using init_train by (rule built_init)
  from ignore_keys_never_present [OF b] get_img1
  have "bbox_ignore img1_result = None \<and> cls_ignore img1_result = None"
    by blast
  with b get_img1 show ?thesis by blast
qed

section \<open>The returned groups\<close>

subsection \<open>More of the small dataset\<close>





lemma f32_huge: "f32_of_int (10 ^ 309) = Inl OverflowError"
  by code_simp


lemma get_img1_all: "get_ann_info flagged_parser 0 = Inr img1_result_all"
  by code_simp

lemma get_img2: "get_ann_info train_parser 1 = Inr img2_result"
  by code_simp

lemma get_img2_all: "get_ann_info flagged_parser 1 = Inr img2_result_all"
  by code_simp

subsection \<open>What the returned arrays hold\<close>

lemma map_err_source:
  "map_err f xs = Inr ys \<Longrightarrow> y \<in> set ys \<Longrightarrow> \<exists>x \<in> set xs. f x = Inr y"
  by (induction xs arbitrary: ys) (auto split: sum.splits)

lemma to_arrays_rows:
  assumes "to_arrays bs ls = Inr (b, l)" and "length ls = length bs"
  shows "\<exists>rs. map_err (map_err f32_of_int) bs = Inr rs \<and> rows b = map (map f32_sub1) rs \<and>
              map_err f32_of_int ls = Inr l"
proof (cases "bs = []")
  case True
  then show ?thesis using assms by (auto simp: to_arrays_def)
next
  case False
  from assms(1) False obtain rs where "map_err (map_err f32_of_int) bs = Inr rs"
    and "b = \<lparr> shape = (length bs, length (hd bs)), rows = map (map f32_sub1) rs \<rparr>"
    and "map_err f32_of_int ls = Inr l"
    by (rule to_arrays_Inr)
  then show ?thesis by simp
qed

text \<open>
  C4. For every position, the loop of \<open>_parse_ann_info\<close> puts every
  annotation whose box has \<open>x2 - x1 < 1\<close> or \<open>y2 - y1 < 1\<close> in the ignore
  lists and not in the usable ones, whatever its difficulty flag and whatever
  \<open>keep_difficult\<close>, and the two groups together hold every annotation. The
  record \<open>get_ann_info\<close> returns holds in \<open>bbox\<close> and \<open>cls\<close> the float32
  conversions of exactly the usable lists, in order, so every row of \<open>bbox\<close>
  comes from an annotation of width and height at least 1; the ignore lists
  go to \<open>bbox_ignore\<close> and \<open>cls_ignore\<close> when the switch is on and are left
  out otherwise. The call returns whenever labels and coordinates are below
  \<open>2 ^ 53\<close> in absolute value.
\<close>

theorem degenerate_boxes_ignored:
  assumes "py_index (length (anns p)) idx = Inr j"
    and "partition_anns p (anns p ! j) ([], [], [], []) =
           (bboxes, labels, bboxes_ignore, labels_ignore)"
  shows "(\<forall>ann \<in> set (anns p ! j). \<forall>x1 y1 x2 y2.
            ann_bbox ann = (x1, y1, x2, y2) \<and> (x2 - x1 < 1 \<or> y2 - y1 < 1) \<longrightarrow>
              (if yxyx p then [y1, x1, y2, x2] else [x1, y1, x2, y2]) \<in> set bboxes_ignore \<and>
              (if yxyx p then [y1, x1, y2, x2] else [x1, y1, x2, y2]) \<notin> set bboxes) \<and>
         (\<forall>b \<in> set bboxes. \<exists>ann \<in> set (anns p ! j). \<exists>x1 y1 x2 y2.
            ann_bbox ann = (x1, y1, x2, y2) \<and>
            b = (if yxyx p then [y1, x1, y2, x2] else [x1, y1, x2, y2]) \<and>
            1 \<le> x2 - x1 \<and> 1 \<le> y2 - y1) \<and>
         length labels = length bboxes \<and> length labels_ignore = length bboxes_ignore \<and>
         length bboxes + length bboxes_ignore = length (anns p ! j) \<and>
         (\<forall>r. get_ann_info p idx = Inr r \<longrightarrow>
            (\<exists>rs ls. map_err (map_err f32_of_int) bboxes = Inr rs \<and>
                     rows (bbox r) = map (map f32_sub1) rs \<and>
                     map_err f32_of_int labels = Inr ls \<and> cls r = map int64_of_f32 ls) \<and>
            (\<forall>row \<in> set (rows (bbox r)). \<exists>ann \<in> set (anns p ! j). \<exists>x1 y1 x2 y2 cs.
               ann_bbox ann = (x1, y1, x2, y2) \<and> 1 \<le> x2 - x1 \<and> 1 \<le> y2 - y1 \<and>
               map_err f32_of_int (if yxyx p then [y1, x1, y2, x2] else [x1, y1, x2, y2]) = Inr cs \<and>
               row = map f32_sub1 cs) \<and>
            (if include_bboxes_ignore p then
               \<exists>bi ci rs ls. bbox_ignore r = Some bi \<and> cls_ignore r = Some ci \<and>
                 map_err (map_err f32_of_int) bboxes_ignore = Inr rs \<and>
                 rows bi = map (map f32_sub1) rs \<and>
                 map_err f32_of_int labels_ignore = Inr ls \<and> ci = map int64_of_f32 ls
             else bbox_ignore r = None \<and> cls_ignore r = None)) \<and>
         ((\<forall>a \<in> set (anns p ! j). \<bar>ann_label a\<bar> < 2 ^ 53 \<and>
             (\<forall>x1 y1 x2 y2. ann_bbox a = (x1, y1, x2, y2) \<longrightarrow>
                \<bar>x1\<bar> < 2 ^ 53 \<and> \<bar>y1\<bar> < 2 ^ 53 \<and> \<bar>x2\<bar> < 2 ^ 53 \<and> \<bar>y2\<bar> < 2 ^ 53)) \<longrightarrow>
          (\<exists>r. get_ann_info p idx = Inr r))"
proof -
  let ?as = "anns p ! j"
  from assms(2) have eqs:
    "bboxes = map (box_of p) (filter (usable p) ?as)"
    "labels = map ann_label (filter (usable p) ?as)"
    "bboxes_ignore = map (box_of p) (filter (\<lambda>a. \<not> usable p a) ?as)"
    "labels_ignore = map ann_label (filter (\<lambda>a. \<not> usable p a) ?as)"
    by (simp_all add: partition_anns_start)
  have usable_box: "\<exists>ann \<in> set ?as. \<exists>x1 y1 x2 y2.
            ann_bbox ann = (x1, y1, x2, y2) \<and>
            b = (if yxyx p then [y1, x1, y2, x2] else [x1, y1, x2, y2]) \<and>
            1 \<le> x2 - x1 \<and> 1 \<le> y2 - y1" if "b \<in> set bboxes" for b
  proof -
    from that obtain a where a: "a \<in> set ?as" "usable p a" "b = box_of p a"
      unfolding eqs by auto
    obtain x1 y1 x2 y2 where c: "ann_bbox a = (x1, y1, x2, y2)"
      by (cases "ann_bbox a") auto
    with a(2,3) have "b = (if yxyx p then [y1, x1, y2, x2] else [x1, y1, x2, y2])"
      "1 \<le> x2 - x1" "1 \<le> y2 - y1"
      by (auto simp: usable_def box_of_def)
    with a(1) c show ?thesis by blast
  qed
  have degenerate:
    "(if yxyx p then [y1, x1, y2, x2] else [x1, y1, x2, y2]) \<in> set bboxes_ignore \<and>
     (if yxyx p then [y1, x1, y2, x2] else [x1, y1, x2, y2]) \<notin> set bboxes"
    if "ann \<in> set ?as" "ann_bbox ann = (x1, y1, x2, y2)" "x2 - x1 < 1 \<or> y2 - y1 < 1"
    for ann x1 y1 x2 y2
  proof
    have "\<not> usable p ann" using that(2,3) by (auto simp: usable_def)
    moreover have "box_of p ann = (if yxyx p then [y1, x1, y2, x2] else [x1, y1, x2, y2])"
      using that(2) by (simp add: box_of_def)
    ultimately show "(if yxyx p then [y1, x1, y2, x2] else [x1, y1, x2, y2]) \<in> set bboxes_ignore"
      using that(1) unfolding eqs by force
    show "(if yxyx p then [y1, x1, y2, x2] else [x1, y1, x2, y2]) \<notin> set bboxes"
    proof
      assume "(if yxyx p then [y1, x1, y2, x2] else [x1, y1, x2, y2]) \<in> set bboxes"
      from usable_box [OF this] that(3) show False
        by (auto split: if_splits)
    qed
  qed
  have len: "length labels = length bboxes" "length labels_ignore = length bboxes_ignore"
    unfolding eqs by simp_all
  have total: "length bboxes + length bboxes_ignore = length ?as"
    unfolding eqs by (simp add: sum_length_filter_compl)
  have out: "(\<exists>rs ls. map_err (map_err f32_of_int) bboxes = Inr rs \<and>
                     rows (bbox r) = map (map f32_sub1) rs \<and>
                     map_err f32_of_int labels = Inr ls \<and> cls r = map int64_of_f32 ls) \<and>
            (\<forall>row \<in> set (rows (bbox r)). \<exists>ann \<in> set ?as. \<exists>x1 y1 x2 y2 cs.
               ann_bbox ann = (x1, y1, x2, y2) \<and> 1 \<le> x2 - x1 \<and> 1 \<le> y2 - y1 \<and>
               map_err f32_of_int (if yxyx p then [y1, x1, y2, x2] else [x1, y1, x2, y2]) = Inr cs \<and>
               row = map f32_sub1 cs) \<and>
            (if include_bboxes_ignore p then
               \<exists>bi ci rs ls. bbox_ignore r = Some bi \<and> cls_ignore r = Some ci \<and>
                 map_err (map_err f32_of_int) bboxes_ignore = Inr rs \<and>
                 rows bi = map (map f32_sub1) rs \<and>
                 map_err f32_of_int labels_ignore = Inr ls \<and> ci = map int64_of_f32 ls
             else bbox_ignore r = None \<and> cls_ignore r = None)"
    if ret: "get_ann_info p idx = Inr r" for r
  proof -
    have r: "parse_ann_info p ?as = Inr r"
      using assms(1) ret by (simp add: get_ann_info_valid)
    from parse_ann_info_Inr [OF r assms(2)]
    obtain l where l: "to_arrays bboxes labels = Inr (bbox r, l)" "cls r = astype_int64 l"
      and ign: "if include_bboxes_ignore p then
              \<exists>bi li. to_arrays bboxes_ignore labels_ignore = Inr (bi, li) \<and>
                      bbox_ignore r = Some bi \<and> cls_ignore r = Some (astype_int64 li)
            else bbox_ignore r = None \<and> cls_ignore r = None"
      by blast
    from to_arrays_rows [OF l(1) len(1)] obtain rs where
      rs: "map_err (map_err f32_of_int) bboxes = Inr rs" "rows (bbox r) = map (map f32_sub1) rs"
      "map_err f32_of_int labels = Inr l"
      by blast
    have first: "\<exists>rs ls. map_err (map_err f32_of_int) bboxes = Inr rs \<and>
                     rows (bbox r) = map (map f32_sub1) rs \<and>
                     map_err f32_of_int labels = Inr ls \<and> cls r = map int64_of_f32 ls"
      using rs l(2) by (auto simp: astype_int64_def)
    have second: "\<exists>ann \<in> set ?as. \<exists>x1 y1 x2 y2 cs.
               ann_bbox ann = (x1, y1, x2, y2) \<and> 1 \<le> x2 - x1 \<and> 1 \<le> y2 - y1 \<and>
               map_err f32_of_int (if yxyx p then [y1, x1, y2, x2] else [x1, y1, x2, y2]) = Inr cs \<and>
               row = map f32_sub1 cs" if "row \<in> set (rows (bbox r))" for row
    proof -
      from that rs(2) obtain cs where cs: "cs \<in> set rs" "row = map f32_sub1 cs"
        by auto
      from map_err_source [OF rs(1) cs(1)] obtain b where
        b: "b \<in> set bboxes" "map_err f32_of_int b = Inr cs"
        by blast
      from usable_box [OF b(1)] b(2) cs(2) show ?thesis
        by blast
    qed
    have third: "if include_bboxes_ignore p then
               \<exists>bi ci rs ls. bbox_ignore r = Some bi \<and> cls_ignore r = Some ci \<and>
                 map_err (map_err f32_of_int) bboxes_ignore = Inr rs \<and>
                 rows bi = map (map f32_sub1) rs \<and>
                 map_err f32_of_int labels_ignore = Inr ls \<and> ci = map int64_of_f32 ls
             else bbox_ignore r = None \<and> cls_ignore r = None"
    proof (cases "include_bboxes_ignore p")
      case True
      with ign obtain bi li where i: "to_arrays bboxes_ignore labels_ignore = Inr (bi, li)"
        "bbox_ignore r = Some bi" "cls_ignore r = Some (astype_int64 li)"
        by auto
      from to_arrays_rows [OF i(1) len(2)] i(2,3) True show ?thesis
        by (auto simp: astype_int64_def)
    next
      case False
      with ign show ?thesis by simp
    qed
    from first second third show ?thesis by blast
  qed
  have returns: "\<exists>r. get_ann_info p idx = Inr r"
    if "\<forall>a \<in> set ?as. \<bar>ann_label a\<bar> < 2 ^ 53 \<and>
             (\<forall>x1 y1 x2 y2. ann_bbox a = (x1, y1, x2, y2) \<longrightarrow>
                \<bar>x1\<bar> < 2 ^ 53 \<and> \<bar>y1\<bar> < 2 ^ 53 \<and> \<bar>x2\<bar> < 2 ^ 53 \<and> \<bar>y2\<bar> < 2 ^ 53)"
    using assms(1) that by (rule get_ann_info_returns)
  from usable_box degenerate len total out returns show ?thesis
    by blast
qed


subsection \<open>The groups of the small dataset\<close>

lemma part_img1:
  "partition_anns train_parser (anns train_parser ! 0) ([], [], [], []) =
     ([[10, 20, 110, 220]], [1], [[5, 5, 50, 50], [7, 7, 7, 30]], [2, 1])"
  "partition_anns flagged_parser (anns flagged_parser ! 0) ([], [], [], []) =
     ([[10, 20, 110, 220]], [1], [[5, 5, 50, 50], [7, 7, 7, 30]], [2, 1])"
  by (simp_all add: flagged_parser_def img1_anns_def train_parser_def voc_parser_def
      new_parser_def voc_cfg_def)


lemma index_train:
  "py_index (length (anns train_parser)) 0 = Inr 0"
  "py_index (length (anns train_parser)) 1 = Inr 1"
  "py_index (length (anns flagged_parser)) 0 = Inr 0"
  "py_index (length (anns flagged_parser)) 1 = Inr 1"
  by (simp_all add: flagged_parser_def train_parser_def py_index_def)

lemma small_img1:
  "\<forall>a \<in> set (anns train_parser ! 0). \<bar>ann_label a\<bar> < 2 ^ 53 \<and>
     (\<forall>x1 y1 x2 y2. ann_bbox a = (x1, y1, x2, y2) \<longrightarrow>
        \<bar>x1\<bar> < 2 ^ 53 \<and> \<bar>y1\<bar> < 2 ^ 53 \<and> \<bar>x2\<bar> < 2 ^ 53 \<and> \<bar>y2\<bar> < 2 ^ 53)"
  by (simp add: train_parser_def img1_anns_def)



theorem degenerate_boxes_ignored_witness:
  "partition_anns flagged_parser (anns flagged_parser ! 0) ([], [], [], []) =
     ([[10, 20, 110, 220]], [1], [[5, 5, 50, 50], [7, 7, 7, 30]], [2, 1]) \<and>
   [7, 7, 7, 30] \<in> set [[5, 5, 50, 50], [7, 7, 7, 30 :: int]] \<and>
   [7, 7, 7, 30] \<notin> set [[10, 20, 110, 220 :: int]] \<and>
   (\<exists>r. get_ann_info train_parser 0 = Inr r) \<and>
   get_ann_info train_parser 0 = Inr img1_result \<and>
   rows (bbox img1_result) = map (map f32_sub1) [[Fin 10, Fin 20, Fin 110, Fin 220]] \<and>
   rows (bbox img1_result) = [[Fin 9, Fin 19, Fin 109, Fin 219]] \<and>
   cls img1_result = [1] \<and> bbox_ignore img1_result = None \<and>
   get_ann_info flagged_parser 0 = Inr img1_result_all \<and>
   rows (bbox img1_result_all) = [[Fin 9, Fin 19, Fin 109, Fin 219]] \<and>
   bbox_ignore img1_result_all =
     Some \<lparr> shape = (2, 4),
            rows = [[Fin 4, Fin 4, Fin 49, Fin 49], [Fin 6, Fin 6, Fin 6, Fin 29]] \<rparr> \<and>
   cls_ignore img1_result_all = Some [2, 1]"
proof -
  note a = degenerate_boxes_ignored [OF index_train(1) part_img1(1)]
  note c = degenerate_boxes_ignored [OF index_train(3) part_img1(2)]
  have y: "\<not> yxyx flagged_parser"
    by (simp add: flagged_parser_def train_parser_def voc_parser_def new_parser_def voc_cfg_def)
  have m: "\<lparr> ann_label = 1, ann_bbox = (7, 7, 7, 30), ann_difficult = 0 \<rparr>
             \<in> set (anns flagged_parser ! 0)"
    by (simp add: flagged_parser_def train_parser_def img1_anns_def)
  from c m y
  have 1: "[7, 7, 7, 30] \<in> set [[5, 5, 50, 50], [7, 7, 7, 30 :: int]] \<and>
        [7, 7, 7, 30] \<notin> set [[10, 20, 110, 220 :: int]]"
    by fastforce
  from a small_img1 have 2: "\<exists>r. get_ann_info train_parser 0 = Inr r"
    by blast
  have conv: "map_err (map_err f32_of_int) [[10, 20, 110, 220]] =
                Inr [[Fin 10, Fin 20, Fin 110, Fin 220]]"
    by (simp add: f32_of_int_exact)
  from a get_img1 conv
  have 3: "rows (bbox img1_result) = map (map f32_sub1) [[Fin 10, Fin 20, Fin 110, Fin 220]]"
    by auto
  have 4: "rows (bbox img1_result) = [[Fin 9, Fin 19, Fin 109, Fin 219]] \<and>
      cls img1_result = [1] \<and> bbox_ignore img1_result = None"
    by (simp add: img1_result_def)
  have 5: "rows (bbox img1_result_all) = [[Fin 9, Fin 19, Fin 109, Fin 219]] \<and>
      bbox_ignore img1_result_all =
        Some \<lparr> shape = (2, 4),
               rows = [[Fin 4, Fin 4, Fin 49, Fin 49], [Fin 6, Fin 6, Fin 6, Fin 29]] \<rparr> \<and>
      cls_ignore img1_result_all = Some [2, 1]"
    by (simp add: img1_result_all_def)
  from 1 2 3 4 5 part_img1(2) get_img1 get_img1_all show ?thesis
    by blast
qed

end
